theory Spec2Isabelle
  imports Main "HOL-Library.Word"
begin

section \<open>Signal emulation and the unified wait of contrib/win32/win32compat/signal.c\<close>

subsection \<open>Constants and types of the headers\<close>

text \<open>
  The signal numbers \<open>W32_SIGCHLD\<close>, \<open>W32_SIGINT\<close>, \<open>W32_SIGALRM\<close>, \<open>W32_SIGTERM\<close>,
  \<open>W32_SIGTSTP\<close>, \<open>W32_SIGSEGV\<close> and the table size \<open>W32_SIGMAX\<close> are macros of
  \<open>signal_internal.h\<close>, which is not part of the sources at hand. They are C \<open>int\<close>
  constants and are taken as parameters: every function below receives the record that
  holds them.
\<close>

record sigcfg =
  W32_SIGCHLD :: int
  W32_SIGINT :: int
  W32_SIGALRM :: int
  W32_SIGTERM :: int
  W32_SIGTSTP :: int
  W32_SIGSEGV :: int
  W32_SIGMAX :: int

text \<open>
  The array \<open>exp[]\<close> of \<open>sw_process_pending_signals\<close> (line 166), in its order.
\<close>

definition exp_signals :: "sigcfg \<Rightarrow> int list" where
  "exp_signals cfg =
     [W32_SIGCHLD cfg, W32_SIGINT cfg, W32_SIGALRM cfg, W32_SIGTERM cfg, W32_SIGTSTP cfg]"

text \<open>
  Modelled from the spec: the values of the signal macros are missing. The spec describes
  a closed domain bounded by a fixed maximum, made of the five kinds the drain loop
  processes and of the fault kind; so the six numbers are pairwise different and each is
  an index of the table \<open>sig_handlers[W32_SIGMAX]\<close>.
\<close>

definition wf_cfg :: "sigcfg \<Rightarrow> bool" where
  "wf_cfg cfg \<longleftrightarrow>
     distinct (W32_SIGSEGV cfg # exp_signals cfg) \<and>
     list_all (\<lambda>k. 0 \<le> k \<and> k < W32_SIGMAX cfg) (W32_SIGSEGV cfg # exp_signals cfg)"

text \<open>
  A configuration that satisfies \<open>wf_cfg\<close>, for the concrete instances below.
\<close>

definition sample_cfg :: sigcfg where
  "sample_cfg = \<lparr> W32_SIGCHLD = 3, W32_SIGINT = 0, W32_SIGALRM = 4, W32_SIGTERM = 8,
                   W32_SIGTSTP = 5, W32_SIGSEGV = 1, W32_SIGMAX = 12 \<rparr>"

text \<open>
  Modelled from the spec: \<open>sighandler_t\<close> and the sentinels \<open>W32_SIG_DFL\<close>,
  \<open>W32_SIG_IGN\<close> are declared in the missing header. The spec gives a disposition as one
  of Default, Ignore and Handler(callable); a callable is identified by a number (its
  address). The source tests \<open>sig_handlers[sig] > W32_SIG_IGN\<close> for a handler, then
  \<open>== W32_SIG_IGN\<close>, and takes anything else as the default.
\<close>

datatype sighandler = W32_SIG_DFL | W32_SIG_IGN | Handler nat

text \<open>
  What \<open>sw_signal\<close> returns: the previous entry, or \<open>W32_SIG_ERR\<close>.
\<close>

datatype sigret = W32_SIG_ERR | Prev sighandler

text \<open>
  The values that the code assigns to \<open>errno\<close>.
\<close>

datatype errno_code = EINVAL | ENOTSUP | EINTR | EOTHER

text \<open>
  Values of the Windows SDK (\<open>winbase.h\<close>, \<open>winnt.h\<close>); a \<open>DWORD\<close> is a 32-bit word.
\<close>

type_synonym DWORD = "32 word"

definition MAXIMUM_WAIT_OBJECTS :: DWORD where
  "MAXIMUM_WAIT_OBJECTS = 64"

definition WAIT_OBJECT_0 :: DWORD where
  "WAIT_OBJECT_0 = 0"

definition WAIT_IO_COMPLETION :: DWORD where
  "WAIT_IO_COMPLETION = 192"

definition WAIT_TIMEOUT :: DWORD where
  "WAIT_TIMEOUT = 258"

subsection \<open>State\<close>

text \<open>
  Modelled from the spec: \<open>struct _children\<close> is declared elsewhere (line 99 only names
  it). The spec gives the child table two counts, of which the first
  \<open>num_children - num_zombies\<close> handles are live; the code assigns their difference to a
  \<open>DWORD\<close>. The handles themselves play no part in the control flow and are left out.
\<close>

record children_tbl =
  num_children :: DWORD
  num_zombies :: DWORD

text \<open>
  Calls that leave this file, in the order in which they are made. Handlers are user
  code: the model records the call \<open>sig_handlers[sig](sig)\<close> and assumes that the handler
  returns and leaves the state of this file alone. The \<open>debug\<close> output is not recorded.
\<close>

datatype event =
    HandlerCall nat int
  | NativeRaiseSIGSEGV
  | CleanupChildZombies
  | ExitThread1
  | DebugBreakCall
  | ChildToZombie DWORD
  | WaitForMultipleObjectsEx DWORD DWORD
  | SleepEx DWORD

text \<open>
  Modelled from the spec: \<open>sigset_t\<close> and the macros \<open>sigaddset\<close>, \<open>sigdelset\<close>,
  \<open>sigismember\<close> are missing; the spec describes the pending set as an unordered,
  duplicate-free set of signal numbers. The tests \<open>if (pending_tmp)\<close> and the assignment
  \<open>pending_signals = 0\<close> of the source become the comparison with, and the assignment of,
  the empty set.
\<close>

type_synonym sigset_t = "int set"

definition sigaddset :: "sigset_t \<Rightarrow> int \<Rightarrow> sigset_t" where
  "sigaddset st sig = insert sig st"

definition sigdelset :: "sigset_t \<Rightarrow> int \<Rightarrow> sigset_t" where
  "sigdelset st sig = st - {sig}"

definition sigismember :: "sigset_t \<Rightarrow> int \<Rightarrow> bool" where
  "sigismember st sig \<longleftrightarrow> sig \<in> st"

record sigstate =
  pending_signals :: sigset_t
  sig_handlers :: "int \<Rightarrow> sighandler"
  children :: children_tbl
  errno :: "errno_code option"
  trace :: "event list"

definition log_event :: "event \<Rightarrow> sigstate \<Rightarrow> sigstate" where
  "log_event e s = s\<lparr>trace := trace s @ [e]\<rparr>"

text \<open>
  What the host and the collaborators do, as far as this file depends on it:
  the effect of \<open>sw_child_to_zombie\<close> and of \<open>sw_cleanup_child_zombies\<close> on the child
  table (both defined outside this file), what the native \<open>raise(SIGSEGV)\<close> returns
  (\<open>None\<close> when the native fault handling ends the process), and whether execution
  goes on after \<open>DebugBreak()\<close> (a debugger continues; without one the breakpoint
  exception ends the process).
\<close>

record hostenv =
  child_to_zombie :: "DWORD \<Rightarrow> children_tbl \<Rightarrow> children_tbl"
  cleanup_child_zombies :: "children_tbl \<Rightarrow> children_tbl"
  native_raise :: "int option"
  break_continues :: bool

text \<open>
  A call either returns a value or stops the thread: by \<open>ExitThread(1)\<close>, at the
  breakpoint, inside the native fault handling, or by indexing \<open>sig_handlers\<close> outside
  \<open>0 .. W32_SIGMAX - 1\<close> (undefined behaviour in C). The state is the one reached.
\<close>

datatype stop_reason = ExitedThread | Breakpoint | NativeFault | OutOfBoundsAccess

datatype 'a outcome = Returns 'a sigstate | Stops stop_reason sigstate

fun bind_outcome :: "'a outcome \<Rightarrow> ('a \<Rightarrow> sigstate \<Rightarrow> 'b outcome) \<Rightarrow> 'b outcome" where
  "bind_outcome (Returns a s) f = f a s"
| "bind_outcome (Stops r s) f = Stops r s"

fun final_state :: "'a outcome \<Rightarrow> sigstate" where
  "final_state (Returns a s) = s"
| "final_state (Stops r s) = s"

text \<open>
  Reading \<open>sig_handlers[i]\<close>: defined for the indices of the array only.
\<close>

definition handler_at :: "sigcfg \<Rightarrow> sigstate \<Rightarrow> int \<Rightarrow> sighandler option" where
  "handler_at cfg s i =
     (if 0 \<le> i \<and> i < W32_SIGMAX cfg then Some (sig_handlers s i) else None)"

subsection \<open>The deferred callbacks (lines 42-64)\<close>

text \<open>
  The three APC procedures of this file. Modelled from the spec: the timer subsystem
  (not in this file) marks the alarm kind pending through the same path, \<open>sigalrm_APC\<close>.
\<close>

datatype apc = sigint_APCProc | sigterm_APCProc | sigtstp_APCProc | sigalrm_APC

fun run_apc :: "sigcfg \<Rightarrow> sigstate \<Rightarrow> apc \<Rightarrow> sigstate" where
  "run_apc cfg s sigint_APCProc =
     s\<lparr>pending_signals := sigaddset (pending_signals s) (W32_SIGINT cfg)\<rparr>"
| "run_apc cfg s sigterm_APCProc =
     s\<lparr>pending_signals := sigaddset (pending_signals s) (W32_SIGTERM cfg)\<rparr>"
| "run_apc cfg s sigtstp_APCProc =
     s\<lparr>pending_signals := sigaddset (pending_signals s) (W32_SIGTSTP cfg)\<rparr>"
| "run_apc cfg s sigalrm_APC =
     s\<lparr>pending_signals := sigaddset (pending_signals s) (W32_SIGALRM cfg)\<rparr>"

subsection \<open>sw_signal (lines 101-114)\<close>

definition sw_signal :: "sigcfg \<Rightarrow> int \<Rightarrow> sighandler \<Rightarrow> sigstate \<Rightarrow> sigret outcome" where
  "sw_signal cfg signum handler s =
     (if signum \<ge> W32_SIGMAX cfg then Returns W32_SIG_ERR (s\<lparr>errno := Some EINVAL\<rparr>)
      else (case handler_at cfg s signum of
              None \<Rightarrow> Stops OutOfBoundsAccess s
            | Some prev \<Rightarrow>
                Returns (Prev prev) (s\<lparr>sig_handlers := (sig_handlers s)(signum := handler)\<rparr>)))"

subsection \<open>sw_raise (lines 126-157)\<close>

definition sw_cleanup_child_zombies :: "hostenv \<Rightarrow> sigstate \<Rightarrow> sigstate" where
  "sw_cleanup_child_zombies env s =
     log_event CleanupChildZombies (s\<lparr>children := cleanup_child_zombies env (children s)\<rparr>)"

definition sw_child_to_zombie :: "hostenv \<Rightarrow> DWORD \<Rightarrow> sigstate \<Rightarrow> sigstate" where
  "sw_child_to_zombie env i s =
     log_event (ChildToZombie i) (s\<lparr>children := child_to_zombie env i (children s)\<rparr>)"

definition sw_raise :: "sigcfg \<Rightarrow> hostenv \<Rightarrow> int \<Rightarrow> sigstate \<Rightarrow> int outcome" where
  "sw_raise cfg env sig s =
     (if sig = W32_SIGSEGV cfg then
        (case native_raise env of
           Some rc \<Rightarrow> Returns rc (log_event NativeRaiseSIGSEGV s)
         | None \<Rightarrow> Stops NativeFault (log_event NativeRaiseSIGSEGV s))
      else if sig \<ge> W32_SIGMAX cfg then Returns (- 1) (s\<lparr>errno := Some EINVAL\<rparr>)
      else (case handler_at cfg s sig of
              None \<Rightarrow> Stops OutOfBoundsAccess s
            | Some (Handler f) \<Rightarrow> Returns 0 (log_event (HandlerCall f sig) s)
            | Some W32_SIG_IGN \<Rightarrow> Returns 0 s
            | Some W32_SIG_DFL \<Rightarrow>
                (if sig = W32_SIGCHLD cfg then Returns 0 (sw_cleanup_child_zombies env s)
                 else Stops ExitedThread (log_event ExitThread1 s))))"

subsection \<open>sw_process_pending_signals (lines 160-208)\<close>

text \<open>
  \<open>DebugBreak()\<close>: the call is recorded; the thread goes on only if the breakpoint is
  continued.
\<close>

definition DebugBreak :: "hostenv \<Rightarrow> sigstate \<Rightarrow> unit outcome" where
  "DebugBreak env s =
     (if break_continues env then Returns () (log_event DebugBreakCall s)
      else Stops Breakpoint (log_event DebugBreakCall s))"

text \<open>
  The first loop (lines 169-170): every expected signal is deleted from the copy.
\<close>

definition check_expected :: "sigcfg \<Rightarrow> sigset_t \<Rightarrow> sigset_t" where
  "check_expected cfg pending_tmp = foldl sigdelset pending_tmp (exp_signals cfg)"

text \<open>
  The second loop (lines 182-194) over the rest of \<open>exp[]\<close>, with the locals
  \<open>pending_tmp\<close> and \<open>sig_int\<close>. A call of \<open>sw_raise\<close> that does not return ends the
  loop, and the thread, there.
\<close>

fun process_loop ::
  "sigcfg \<Rightarrow> hostenv \<Rightarrow> int list \<Rightarrow> sigset_t \<Rightarrow> bool \<Rightarrow> sigstate \<Rightarrow> (sigset_t \<times> bool) outcome"
where
  "process_loop cfg env [] pending_tmp sig_int s = Returns (pending_tmp, sig_int) s"
| "process_loop cfg env (e # es) pending_tmp sig_int s =
     (if sigismember pending_tmp e then
        (case handler_at cfg s e of
           None \<Rightarrow> Stops OutOfBoundsAccess s
         | Some h \<Rightarrow>
             (if h \<noteq> W32_SIG_IGN then
                bind_outcome (sw_raise cfg env e s)
                  (\<lambda>rc s'. process_loop cfg env es (sigdelset pending_tmp e)
                     (if e \<noteq> W32_SIGALRM cfg then True else sig_int) s')
              else process_loop cfg env es (sigdelset pending_tmp e) sig_int s))
      else process_loop cfg env es pending_tmp sig_int s)"

definition sw_process_pending_signals :: "sigcfg \<Rightarrow> hostenv \<Rightarrow> sigstate \<Rightarrow> int outcome" where
  "sw_process_pending_signals cfg env s =
     (if check_expected cfg (pending_signals s) \<noteq> {} then
        bind_outcome (DebugBreak env (s\<lparr>errno := Some ENOTSUP\<rparr>))
          (\<lambda>u s'. Returns (- 1) s')
      else
        bind_outcome
          (process_loop cfg env (exp_signals cfg) (pending_signals s) False
             (s\<lparr>pending_signals := {}\<rparr>))
          (\<lambda>(pending_tmp, sig_int) s1.
             bind_outcome (if pending_tmp \<noteq> {} then DebugBreak env s1 else Returns () s1)
               (\<lambda>u s2. if sig_int then Returns (- 1) (s2\<lparr>errno := Some EINTR\<rparr>)
                        else Returns 0 s2)))"

subsection \<open>wait_for_any_event (lines 221-286)\<close>

text \<open>
  What the host answers to one alertable wait: the deferred callbacks that ran on this
  thread during the wait, in their order, and the value that
  \<open>WaitForMultipleObjectsEx\<close> or \<open>SleepEx\<close> returned.
\<close>

record wake =
  apcs :: "apc list"
  ret :: DWORD

definition alertable_wait :: "sigcfg \<Rightarrow> wake \<Rightarrow> event \<Rightarrow> sigstate \<Rightarrow> sigstate" where
  "alertable_wait cfg w call s = foldl (run_apc cfg) (log_event call s) (apcs w)"

text \<open>
  The two branches of lines 241-280 either return at once (\<open>Inl\<close>, with the value
  returned) or fall through to line 282 (\<open>Inr\<close>). \<open>num_events\<close> is the C \<open>int\<close> of the
  caller as the 32 bits that the addition of line 228 converts to \<open>DWORD\<close>; the arrays
  copied at lines 236-237 are not modelled.
\<close>

definition wait_multiple ::
  "sigcfg \<Rightarrow> hostenv \<Rightarrow> wake \<Rightarrow> DWORD \<Rightarrow> DWORD \<Rightarrow> sigstate \<Rightarrow> (int \<times> sigstate) + sigstate"
where
  "wait_multiple cfg env w num_all_events milli_seconds s =
     (let s1 = alertable_wait cfg w (WaitForMultipleObjectsEx num_all_events milli_seconds) s
      in
        if ret w \<ge> WAIT_OBJECT_0 \<and> ret w \<le> WAIT_OBJECT_0 + num_all_events - 1 then
          (if num_children (children s1) \<noteq> 0 \<and>
              ret w - WAIT_OBJECT_0 < num_children (children s1)
           then Inr (sw_child_to_zombie env (ret w - WAIT_OBJECT_0)
                  (s1\<lparr>pending_signals := sigaddset (pending_signals s1) (W32_SIGCHLD cfg)\<rparr>))
           else Inr s1)
        else if ret w = WAIT_IO_COMPLETION then Inr s1
        else if ret w = WAIT_TIMEOUT then Inl (0, s1)
        else Inl (- 1, s1\<lparr>errno := Some EOTHER\<rparr>))"

definition wait_sleep ::
  "sigcfg \<Rightarrow> wake \<Rightarrow> DWORD \<Rightarrow> sigstate \<Rightarrow> (int \<times> sigstate) + sigstate"
where
  "wait_sleep cfg w milli_seconds s =
     (let s1 = alertable_wait cfg w (SleepEx milli_seconds) s
      in
        if ret w = WAIT_IO_COMPLETION then Inr s1
        else if ret w = 0 then Inl (0, s1)
        else Inl (- 1, s1\<lparr>errno := Some EOTHER\<rparr>))"

definition wait_for_any_event ::
  "sigcfg \<Rightarrow> hostenv \<Rightarrow> wake \<Rightarrow> DWORD \<Rightarrow> DWORD \<Rightarrow> sigstate \<Rightarrow> int outcome"
where
  "wait_for_any_event cfg env w num_events milli_seconds s =
     (let live_children = num_children (children s) - num_zombies (children s);
          num_all_events = num_events + live_children
      in
        if num_all_events > MAXIMUM_WAIT_OBJECTS then
          Returns (- 1) (s\<lparr>errno := Some ENOTSUP\<rparr>)
        else
          (case (if num_all_events \<noteq> 0
                 then wait_multiple cfg env w num_all_events milli_seconds s
                 else wait_sleep cfg w milli_seconds s) of
             Inl (rc, s1) \<Rightarrow> Returns rc s1
           | Inr s1 \<Rightarrow>
               (if pending_signals s1 \<noteq> {} then sw_process_pending_signals cfg env s1
                else Returns 0 s1)))"

subsection \<open>Dispatch in a given order\<close>

text \<open>
  The reading of the spec against which the drain loop is compared: the dispatcher
  \<open>sw_raise\<close> applied to a list of kinds, one after the other; a dispatch that does not
  return ends the sequence.
\<close>

fun dispatch_in_order :: "sigcfg \<Rightarrow> hostenv \<Rightarrow> int list \<Rightarrow> sigstate \<Rightarrow> unit outcome" where
  "dispatch_in_order cfg env [] s = Returns () s"
| "dispatch_in_order cfg env (k # ks) s =
     bind_outcome (sw_raise cfg env k s) (\<lambda>rc s'. dispatch_in_order cfg env ks s')"

text \<open>
  The kinds of the snapshot that are dispatched: present and not ignored, in the order
  child-exit, interrupt, alarm, terminate, stop.
\<close>

definition dispatched_kinds :: "sigcfg \<Rightarrow> sigstate \<Rightarrow> sigset_t \<Rightarrow> int list" where
  "dispatched_kinds cfg s pending =
     filter (\<lambda>k. k \<in> pending \<and> sig_handlers s k \<noteq> W32_SIG_IGN) (exp_signals cfg)"

text \<open>
  The result of the drain after the dispatches, as the spec gives it: interrupted when a
  kind other than alarm was dispatched, success otherwise.
\<close>

definition drain_result :: "sigcfg \<Rightarrow> int list \<Rightarrow> sigstate \<Rightarrow> int outcome" where
  "drain_result cfg ks s =
     (if list_ex (\<lambda>k. k \<noteq> W32_SIGALRM cfg) ks then Returns (- 1) (s\<lparr>errno := Some EINTR\<rparr>)
      else Returns 0 s)"

subsection \<open>Sample inputs\<close>

text \<open>
  A host for the concrete instances: a zombie more per transition, all zombies removed
  by the clean-up, a native fault handling that ends the process, and a debugger that
  continues after the breakpoint.
\<close>

definition sample_env :: hostenv where
  "sample_env = \<lparr> child_to_zombie = (\<lambda>i c. c\<lparr>num_zombies := num_zombies c + 1\<rparr>),
                   cleanup_child_zombies =
                     (\<lambda>c. \<lparr>num_children = num_children c - num_zombies c, num_zombies = 0\<rparr>),
                   native_raise = None,
                   break_continues = True \<rparr>"

text \<open>
  A state in which the kinds of \<open>marks\<close> have been marked pending in that order and
  signal \<open>k\<close> has the handler number \<open>k\<close>.
\<close>

definition handled_state :: "int list \<Rightarrow> sigstate" where
  "handled_state marks =
     \<lparr> pending_signals = foldl sigaddset {} marks,
       sig_handlers = (\<lambda>k. Handler (nat k)),
       children = \<lparr>num_children = 0, num_zombies = 0\<rparr>,
       errno = None,
       trace = [] \<rparr>"

text \<open>
  A state with the given pending set, the same disposition for every signal, no
  children and an empty trace.
\<close>

definition sample_state :: "sigset_t \<Rightarrow> sighandler \<Rightarrow> sigstate" where
  "sample_state p h =
     \<lparr> pending_signals = p, sig_handlers = (\<lambda>k. h),
       children = \<lparr>num_children = 0, num_zombies = 0\<rparr>, errno = None, trace = [] \<rparr>"

section \<open>Properties\<close>

subsection \<open>The pending set and the drain loop\<close>

lemma foldl_sigdelset: "foldl sigdelset p xs = p - set xs"
  by (induction xs arbitrary: p) (auto simp: sigdelset_def)

lemma check_expected_eq: "check_expected cfg p = p - set (exp_signals cfg)"
  by (simp add: check_expected_def foldl_sigdelset)

lemma foldl_sigaddset: "foldl sigaddset p xs = p \<union> set xs"
  by (induction xs arbitrary: p) (auto simp: sigaddset_def)

lemma sw_raise_Returns_handlers:
  "sw_raise cfg env k s = Returns rc s' \<Longrightarrow> sig_handlers s' = sig_handlers s"
  by (auto simp: sw_raise_def log_event_def sw_cleanup_child_zombies_def
           split: if_splits option.splits sighandler.splits)

lemma process_loop_dispatch:
  assumes "distinct es" and "\<forall>k\<in>set es. 0 \<le> k \<and> k < W32_SIGMAX cfg"
  shows "process_loop cfg env es tmp si s =
           bind_outcome
             (dispatch_in_order cfg env
                (filter (\<lambda>k. k \<in> tmp \<and> sig_handlers s k \<noteq> W32_SIG_IGN) es) s)
             (\<lambda>u s'. Returns (tmp - set es,
                 si \<or> list_ex (\<lambda>k. k \<noteq> W32_SIGALRM cfg)
                        (filter (\<lambda>k. k \<in> tmp \<and> sig_handlers s k \<noteq> W32_SIG_IGN) es)) s')"
  using assms
proof (induction es arbitrary: tmp si s)
  case Nil
  then show ?case by simp
next
  case (Cons e es)
  have d: "distinct es" and r: "\<forall>k\<in>set es. 0 \<le> k \<and> k < W32_SIGMAX cfg"
    and e_new: "e \<notin> set es" and e_ok: "0 \<le> e \<and> e < W32_SIGMAX cfg"
    using Cons.prems by auto
  have same: "filter (\<lambda>k. k \<in> sigdelset tmp e \<and> P k) es = filter (\<lambda>k. k \<in> tmp \<and> P k) es" for P
    using e_new by (intro filter_cong) (auto simp: sigdelset_def)
  have rest: "sigdelset tmp e - set es = tmp - set (e # es)"
    by (auto simp: sigdelset_def)
  have at: "handler_at cfg s e = Some (sig_handlers s e)"
    using e_ok by (simp add: handler_at_def)
  show ?case
  proof (cases "e \<in> tmp \<and> sig_handlers s e \<noteq> W32_SIG_IGN")
    case True
    then have lhs: "process_loop cfg env (e # es) tmp si s =
        bind_outcome (sw_raise cfg env e s)
          (\<lambda>rc s'. process_loop cfg env es (sigdelset tmp e)
                      (if e \<noteq> W32_SIGALRM cfg then True else si) s')"
      by (simp add: sigismember_def at)
    show ?thesis
    proof (cases "sw_raise cfg env e s")
      case (Returns rc s')
      then have h: "sig_handlers s' = sig_handlers s"
        by (rule sw_raise_Returns_handlers)
      show ?thesis
        unfolding lhs
        using True Returns
        by (simp add: Cons.IH [OF d r] h same rest del: set_simps)
    next
      case (Stops x s')
      then show ?thesis
        unfolding lhs using True by simp
    qed
  next
    case False
    show ?thesis
    proof (cases "e \<in> tmp")
      case True
      with False have ign: "sig_handlers s e = W32_SIG_IGN" by simp
      then have "process_loop cfg env (e # es) tmp si s =
                   process_loop cfg env es (sigdelset tmp e) si s"
        using True by (simp add: sigismember_def at)
      then show ?thesis
        using ign by (simp add: Cons.IH [OF d r] same rest del: set_simps)
    next
      case False
      then have "process_loop cfg env (e # es) tmp si s = process_loop cfg env es tmp si s"
        by (simp add: sigismember_def)
      moreover have "tmp - set es = tmp - set (e # es)"
        using False by auto
      ultimately show ?thesis
        using False by (simp add: Cons.IH [OF d r] del: set_simps)
    qed
  qed
qed

lemma bind_outcome_assoc:
  "bind_outcome (bind_outcome m f) g = bind_outcome m (\<lambda>a s. bind_outcome (f a s) g)"
  by (cases m) simp_all

lemma wf_cfg_exp:
  assumes "wf_cfg cfg"
  shows "distinct (exp_signals cfg)"
    and "\<forall>k\<in>set (exp_signals cfg). 0 \<le> k \<and> k < W32_SIGMAX cfg"
    and "W32_SIGSEGV cfg \<notin> set (exp_signals cfg)"
  using assms by (auto simp: wf_cfg_def list_all_iff)

lemma drain_as_dispatch:
  assumes "wf_cfg cfg" and "pending_signals s \<subseteq> set (exp_signals cfg)"
  shows "sw_process_pending_signals cfg env s =
           bind_outcome
             (dispatch_in_order cfg env (dispatched_kinds cfg s (pending_signals s))
                (s\<lparr>pending_signals := {}\<rparr>))
             (\<lambda>u. drain_result cfg (dispatched_kinds cfg s (pending_signals s)))"
proof -
  have ok: "check_expected cfg (pending_signals s) = {}"
    using assms(2) by (auto simp: check_expected_eq)
  have emp: "pending_signals s - set (exp_signals cfg) = {}"
    using assms(2) by auto
  show ?thesis
    unfolding sw_process_pending_signals_def
    by (simp add: ok process_loop_dispatch [OF wf_cfg_exp(1,2) [OF assms(1)]]
          bind_outcome_assoc emp dispatched_kinds_def drain_result_def [abs_def])
qed

text \<open>
  C2: for a pending set made of expected kinds, whatever the order \<open>marks\<close> in which
  they were marked, the drain dispatches the kinds that are present and not ignored in
  the order child-exit, interrupt, alarm, terminate, stop: it resets the pending set and
  does what \<open>sw_raise\<close> does on each of them in that order, up to a dispatch that does
  not return. With terminate, interrupt and child-exit marked (in this or another
  order) and handlers registered, the handlers run for child-exit, interrupt,
  terminate.
\<close>

theorem drain_priority_order:
  assumes "wf_cfg cfg"
    and "set marks \<subseteq> set (exp_signals cfg)"
    and "pending_signals s = foldl sigaddset {} marks"
  shows "sw_process_pending_signals cfg env s =
           bind_outcome
             (dispatch_in_order cfg env (dispatched_kinds cfg s (set marks))
                (s\<lparr>pending_signals := {}\<rparr>))
             (\<lambda>u. drain_result cfg (dispatched_kinds cfg s (set marks)))"
proof -
  have p: "pending_signals s = set marks"
    using assms(3) by (simp add: foldl_sigaddset)
  show ?thesis
    using drain_as_dispatch [OF assms(1), of s env] assms(2) by (simp add: p)
qed

lemma wf_sample_cfg: "wf_cfg sample_cfg"
  by (simp add: wf_cfg_def sample_cfg_def exp_signals_def)

theorem drain_priority_order_witness:
  "wf_cfg sample_cfg \<and> set [8, 0, 3] \<subseteq> set (exp_signals sample_cfg) \<and>
   pending_signals (handled_state [8, 0, 3]) = foldl sigaddset {} [8, 0, 3] \<and>
   sw_process_pending_signals sample_cfg sample_env (handled_state [8, 0, 3]) =
     Returns (- 1) \<lparr> pending_signals = {}, sig_handlers = (\<lambda>k. Handler (nat k)),
       children = \<lparr>num_children = 0, num_zombies = 0\<rparr>, errno = Some EINTR,
       trace = [HandlerCall 3 3, HandlerCall 0 0, HandlerCall 8 8] \<rparr> \<and>
   sw_process_pending_signals sample_cfg sample_env (handled_state [3, 8, 0]) =
     sw_process_pending_signals sample_cfg sample_env (handled_state [8, 0, 3])"
proof -
  have m1: "set [8, 0, 3] \<subseteq> set (exp_signals sample_cfg)"
    and m2: "set [3, 8, 0] \<subseteq> set (exp_signals sample_cfg)"
    by (simp_all add: sample_cfg_def exp_signals_def)
  have p1: "pending_signals (handled_state [8, 0, 3]) = foldl sigaddset {} [8, 0, 3]"
    and p2: "pending_signals (handled_state [3, 8, 0]) = foldl sigaddset {} [3, 8, 0]"
    by (simp_all add: handled_state_def)
  note a = drain_priority_order [OF wf_sample_cfg m1 p1, of sample_env]
  note b = drain_priority_order [OF wf_sample_cfg m2 p2, of sample_env]
  have ea: "sw_process_pending_signals sample_cfg sample_env (handled_state [8, 0, 3]) =
     Returns (- 1) \<lparr> pending_signals = {}, sig_handlers = (\<lambda>k. Handler (nat k)),
       children = \<lparr>num_children = 0, num_zombies = 0\<rparr>, errno = Some EINTR,
       trace = [HandlerCall 3 3, HandlerCall 0 0, HandlerCall 8 8] \<rparr>"
    unfolding a
    by (simp add: dispatched_kinds_def drain_result_def sample_cfg_def exp_signals_def
          handled_state_def sw_raise_def handler_at_def log_event_def)
  have eb: "sw_process_pending_signals sample_cfg sample_env (handled_state [3, 8, 0]) =
     Returns (- 1) \<lparr> pending_signals = {}, sig_handlers = (\<lambda>k. Handler (nat k)),
       children = \<lparr>num_children = 0, num_zombies = 0\<rparr>, errno = Some EINTR,
       trace = [HandlerCall 3 3, HandlerCall 0 0, HandlerCall 8 8] \<rparr>"
    unfolding b
    by (simp add: dispatched_kinds_def drain_result_def sample_cfg_def exp_signals_def
          handled_state_def sw_raise_def handler_at_def log_event_def)
  show ?thesis
    using wf_sample_cfg m1 p1 ea eb by simp
qed

lemma sw_raise_handled:
  assumes "0 \<le> k \<and> k < W32_SIGMAX cfg" and "k \<noteq> W32_SIGSEGV cfg"
    and "k \<noteq> W32_SIGCHLD cfg \<longrightarrow> sig_handlers s k \<noteq> W32_SIG_DFL"
  shows "\<exists>s'. sw_raise cfg env k s = Returns 0 s' \<and> errno s' = errno s \<and>
              sig_handlers s' = sig_handlers s"
  using assms
  by (cases "sig_handlers s k")
     (auto simp: sw_raise_def handler_at_def log_event_def sw_cleanup_child_zombies_def)

lemma dispatch_in_order_Returns:
  assumes "\<forall>k\<in>set ks. 0 \<le> k \<and> k < W32_SIGMAX cfg \<and> k \<noteq> W32_SIGSEGV cfg \<and>
             (k \<noteq> W32_SIGCHLD cfg \<longrightarrow> sig_handlers s k \<noteq> W32_SIG_DFL)"
  shows "\<exists>s'. dispatch_in_order cfg env ks s = Returns () s' \<and> errno s' = errno s"
  using assms
proof (induction ks arbitrary: s)
  case Nil
  then show ?case by simp
next
  case (Cons k ks)
  then obtain s1 where r: "sw_raise cfg env k s = Returns 0 s1"
    and e: "errno s1 = errno s" and h: "sig_handlers s1 = sig_handlers s"
    using sw_raise_handled [of k cfg s env] by auto
  have "\<exists>s'. dispatch_in_order cfg env ks s1 = Returns () s' \<and> errno s' = errno s1"
    using Cons.prems by (intro Cons.IH) (simp add: h)
  then show ?case
    using r e by auto
qed

text \<open>
  C3, as stated, fails where a dispatched kind has the default disposition and is not
  child-exit: with only the alarm pending and every disposition at its default, the
  alarm is the only kind dispatched, its default action is \<open>ExitThread(1)\<close>, and the
  drain does not return success: it does not return.
\<close>

theorem drain_alarm_default_counterexample:
  "pending_signals (sample_state {4} W32_SIG_DFL) = {W32_SIGALRM sample_cfg} \<and>
   sw_process_pending_signals sample_cfg sample_env (sample_state {4} W32_SIG_DFL) =
     Stops ExitedThread ((sample_state {} W32_SIG_DFL)\<lparr>trace := [ExitThread1]\<rparr>)"
  by (simp add: sw_process_pending_signals_def check_expected_def exp_signals_def
        sample_cfg_def sample_state_def sigdelset_def sigismember_def handler_at_def
        sw_raise_def log_event_def)

lemma drain_returns_code:
  assumes "wf_cfg cfg"
    and "pending_signals s \<subseteq> set (exp_signals cfg)"
    and "\<forall>k\<in>pending_signals s. k \<noteq> W32_SIGCHLD cfg \<longrightarrow> sig_handlers s k \<noteq> W32_SIG_DFL"
  shows "\<exists>s'. sw_process_pending_signals cfg env s =
                 Returns (if \<exists>k\<in>pending_signals s.
                               k \<noteq> W32_SIGALRM cfg \<and> sig_handlers s k \<noteq> W32_SIG_IGN
                          then - 1 else 0) s' \<and>
              errno s' = (if \<exists>k\<in>pending_signals s.
                               k \<noteq> W32_SIGALRM cfg \<and> sig_handlers s k \<noteq> W32_SIG_IGN
                          then Some EINTR else errno s)"
proof -
  let ?ks = "dispatched_kinds cfg s (pending_signals s)"
  have ks: "set ?ks = {k \<in> pending_signals s. sig_handlers s k \<noteq> W32_SIG_IGN}"
    using assms(2) by (auto simp: dispatched_kinds_def)
  have "\<forall>k\<in>set ?ks. 0 \<le> k \<and> k < W32_SIGMAX cfg \<and> k \<noteq> W32_SIGSEGV cfg \<and>
          (k \<noteq> W32_SIGCHLD cfg \<longrightarrow>
             sig_handlers (s\<lparr>pending_signals := {}\<rparr>) k \<noteq> W32_SIG_DFL)"
    using wf_cfg_exp [OF assms(1)] assms(2,3) unfolding ks by auto
  then obtain s1 where d: "dispatch_in_order cfg env ?ks (s\<lparr>pending_signals := {}\<rparr>) =
      Returns () s1" and e: "errno s1 = errno s"
    using dispatch_in_order_Returns [of ?ks cfg "s\<lparr>pending_signals := {}\<rparr>" env] by auto
  have ex: "list_ex (\<lambda>k. k \<noteq> W32_SIGALRM cfg) ?ks \<longleftrightarrow>
      (\<exists>k\<in>pending_signals s. k \<noteq> W32_SIGALRM cfg \<and> sig_handlers s k \<noteq> W32_SIG_IGN)"
    unfolding list_ex_iff ks by auto
  show ?thesis
    unfolding drain_as_dispatch [OF assms(1,2)] d
    using e ex by (auto simp: drain_result_def)
qed

lemma dispatch_in_order_exits:
  assumes "\<forall>k\<in>set ks. 0 \<le> k \<and> k < W32_SIGMAX cfg \<and> k \<noteq> W32_SIGSEGV cfg"
    and "\<exists>k\<in>set ks. k \<noteq> W32_SIGCHLD cfg \<and> sig_handlers s k = W32_SIG_DFL"
  shows "\<exists>s'. dispatch_in_order cfg env ks s = Stops ExitedThread s'"
  using assms
proof (induction ks arbitrary: s)
  case Nil
  then show ?case by simp
next
  case (Cons k ks)
  have k: "0 \<le> k \<and> k < W32_SIGMAX cfg" "k \<noteq> W32_SIGSEGV cfg"
    using Cons.prems(1) by simp_all
  show ?case
  proof (cases "k \<noteq> W32_SIGCHLD cfg \<and> sig_handlers s k = W32_SIG_DFL")
    case True
    then have "sw_raise cfg env k s = Stops ExitedThread (log_event ExitThread1 s)"
      using k by (simp add: sw_raise_def handler_at_def)
    then show ?thesis by simp
  next
    case False
    then obtain s1 where r: "sw_raise cfg env k s = Returns 0 s1"
      and h: "sig_handlers s1 = sig_handlers s"
      using sw_raise_handled [OF k, of s env] by auto
    have "\<exists>k\<in>set ks. k \<noteq> W32_SIGCHLD cfg \<and> sig_handlers s1 k = W32_SIG_DFL"
      using Cons.prems(2) False by (auto simp: h)
    then have "\<exists>s'. dispatch_in_order cfg env ks s1 = Stops ExitedThread s'"
      using Cons.prems(1) by (intro Cons.IH) simp_all
    then show ?thesis using r by simp
  qed
qed

lemma drain_default_exits:
  assumes "wf_cfg cfg" and "pending_signals s \<subseteq> set (exp_signals cfg)"
    and "k \<in> pending_signals s" and "k \<noteq> W32_SIGCHLD cfg"
    and "sig_handlers s k = W32_SIG_DFL"
  shows "\<exists>s'. sw_process_pending_signals cfg env s = Stops ExitedThread s'"
proof -
  let ?ks = "dispatched_kinds cfg s (pending_signals s)"
  have "k \<in> set ?ks"
    using assms(2,3,5) by (auto simp: dispatched_kinds_def)
  then have ex: "\<exists>k\<in>set ?ks. k \<noteq> W32_SIGCHLD cfg \<and>
      sig_handlers (s\<lparr>pending_signals := {}\<rparr>) k = W32_SIG_DFL"
    using assms(4,5) by auto
  have rng: "\<forall>k\<in>set ?ks. 0 \<le> k \<and> k < W32_SIGMAX cfg \<and> k \<noteq> W32_SIGSEGV cfg"
    using wf_cfg_exp [OF assms(1)] by (auto simp: dispatched_kinds_def)
  obtain s' where "dispatch_in_order cfg env ?ks (s\<lparr>pending_signals := {}\<rparr>) =
      Stops ExitedThread s'"
    using dispatch_in_order_exits [OF rng ex] by blast
  then show ?thesis
    unfolding drain_as_dispatch [OF assms(1,2)] by simp
qed

text \<open>
  C3, amended: take a pending set of expected kinds. If a present kind other than
  child-exit has the default disposition, its default action \<open>ExitThread(1)\<close> ends the
  thread and the drain does not return. Otherwise the drain returns: \<open>-1\<close> with
  \<open>errno = EINTR\<close> when a present kind other than the alarm has a disposition other than
  Ignore (so is dispatched), and \<open>0\<close> with \<open>errno\<close> as it was when nothing but the
  alarm is dispatched or every present kind is ignored.
\<close>

theorem drain_result_code:
  assumes "wf_cfg cfg"
    and "pending_signals s \<subseteq> set (exp_signals cfg)"
  shows "if \<exists>k\<in>pending_signals s. k \<noteq> W32_SIGCHLD cfg \<and> sig_handlers s k = W32_SIG_DFL
         then \<exists>s'. sw_process_pending_signals cfg env s = Stops ExitedThread s'
         else \<exists>s'. sw_process_pending_signals cfg env s =
                Returns (if \<exists>k\<in>pending_signals s.
                              k \<noteq> W32_SIGALRM cfg \<and> sig_handlers s k \<noteq> W32_SIG_IGN
                         then - 1 else 0) s' \<and>
              errno s' = (if \<exists>k\<in>pending_signals s.
                               k \<noteq> W32_SIGALRM cfg \<and> sig_handlers s k \<noteq> W32_SIG_IGN
                          then Some EINTR else errno s)"
proof (cases "\<exists>k\<in>pending_signals s. k \<noteq> W32_SIGCHLD cfg \<and> sig_handlers s k = W32_SIG_DFL")
  case True
  then obtain k where "k \<in> pending_signals s" and "k \<noteq> W32_SIGCHLD cfg"
    and "sig_handlers s k = W32_SIG_DFL"
    by blast
  then show ?thesis
    unfolding if_P [OF True] by (rule drain_default_exits [OF assms])
next
  case False
  then have h: "\<forall>k\<in>pending_signals s.
      k \<noteq> W32_SIGCHLD cfg \<longrightarrow> sig_handlers s k \<noteq> W32_SIG_DFL"
    by auto
  show ?thesis
    unfolding if_not_P [OF False] by (rule drain_returns_code [OF assms h])
qed

theorem drain_result_code_witness:
  "wf_cfg sample_cfg \<and>
   pending_signals (sample_state {4} (Handler 7)) \<subseteq> set (exp_signals sample_cfg) \<and>
   (\<exists>s'. sw_process_pending_signals sample_cfg sample_env (sample_state {4} (Handler 7)) =
           Returns 0 s' \<and> errno s' = None) \<and>
   (\<exists>s'. sw_process_pending_signals sample_cfg sample_env (sample_state {4, 0} (Handler 7)) =
           Returns (- 1) s' \<and> errno s' = Some EINTR) \<and>
   (\<exists>s'. sw_process_pending_signals sample_cfg sample_env (sample_state {3} W32_SIG_DFL) =
           Returns (- 1) s' \<and> errno s' = Some EINTR) \<and>
   (\<exists>s'. sw_process_pending_signals sample_cfg sample_env (sample_state {3, 0} W32_SIG_DFL) =
           Stops ExitedThread s')"
proof -
  have p: "pending_signals (sample_state {4} (Handler 7)) \<subseteq> set (exp_signals sample_cfg)"
    and q: "pending_signals (sample_state {4, 0} (Handler 7)) \<subseteq> set (exp_signals sample_cfg)"
    and r: "pending_signals (sample_state {3} W32_SIG_DFL) \<subseteq> set (exp_signals sample_cfg)"
    and t: "pending_signals (sample_state {3, 0} W32_SIG_DFL) \<subseteq> set (exp_signals sample_cfg)"
    by (simp_all add: sample_state_def sample_cfg_def exp_signals_def)
  have a: "\<exists>s'. sw_process_pending_signals sample_cfg sample_env (sample_state {4} (Handler 7)) =
           Returns 0 s' \<and> errno s' = None"
    using drain_result_code [OF wf_sample_cfg p, of sample_env]
    by (simp add: sample_state_def sample_cfg_def)
  have b: "\<exists>s'. sw_process_pending_signals sample_cfg sample_env
                  (sample_state {4, 0} (Handler 7)) = Returns (- 1) s' \<and> errno s' = Some EINTR"
    using drain_result_code [OF wf_sample_cfg q, of sample_env]
    by (simp add: sample_state_def sample_cfg_def)
  have c: "\<exists>s'. sw_process_pending_signals sample_cfg sample_env
                  (sample_state {3} W32_SIG_DFL) = Returns (- 1) s' \<and> errno s' = Some EINTR"
    using drain_result_code [OF wf_sample_cfg r, of sample_env]
    by (simp add: sample_state_def sample_cfg_def)
  have d: "\<exists>s'. sw_process_pending_signals sample_cfg sample_env
                  (sample_state {3, 0} W32_SIG_DFL) = Stops ExitedThread s'"
    using drain_result_code [OF wf_sample_cfg t, of sample_env]
    by (simp add: sample_state_def sample_cfg_def)
  show ?thesis
    using wf_sample_cfg p a b c d by simp
qed

text \<open>
  C5, as stated, fails when execution goes on after the breakpoint: with kind 2, which
  is not one of the five, in the pending set, the drain returns \<open>-1\<close> with
  \<open>errno = ENOTSUP\<close> to its caller, as lines 174-176 say, and \<open>wait_for_any_event\<close>
  returns it to its own.
\<close>

theorem drain_unexpected_counterexample:
  "2 \<in> pending_signals (sample_state {2} W32_SIG_DFL) \<and>
   2 \<notin> set (exp_signals sample_cfg) \<and>
   sw_process_pending_signals sample_cfg sample_env (sample_state {2} W32_SIG_DFL) =
     Returns (- 1)
       ((sample_state {2} W32_SIG_DFL)\<lparr>errno := Some ENOTSUP, trace := [DebugBreakCall]\<rparr>) \<and>
   wait_for_any_event sample_cfg sample_env \<lparr>apcs = [], ret = WAIT_IO_COMPLETION\<rparr> 0 0
       (sample_state {2} W32_SIG_DFL) =
     Returns (- 1)
       ((sample_state {2} W32_SIG_DFL)
          \<lparr>errno := Some ENOTSUP, trace := [SleepEx 0, DebugBreakCall]\<rparr>)"
  by (simp add: sw_process_pending_signals_def check_expected_def exp_signals_def
        sample_cfg_def sample_state_def sigdelset_def DebugBreak_def sample_env_def
        log_event_def wait_for_any_event_def wait_sleep_def alertable_wait_def)

text \<open>
  C5, amended: when the pending set holds a kind outside the five expected ones, the
  drain dispatches nothing and leaves the pending set and the dispositions as they are;
  it sets \<open>errno\<close> to \<open>ENOTSUP\<close> and calls \<open>DebugBreak()\<close>. If the breakpoint ends the
  process nothing is returned; if execution is continued, the drain returns \<open>-1\<close> to its
  caller as an ordinary error result.
\<close>

theorem drain_unexpected:
  assumes "k \<in> pending_signals s" and "k \<notin> set (exp_signals cfg)"
  shows "sw_process_pending_signals cfg env s =
           (if break_continues env
            then Returns (- 1)
                   (s\<lparr>errno := Some ENOTSUP, trace := trace s @ [DebugBreakCall]\<rparr>)
            else Stops Breakpoint
                   (s\<lparr>errno := Some ENOTSUP, trace := trace s @ [DebugBreakCall]\<rparr>))"
proof -
  have "check_expected cfg (pending_signals s) \<noteq> {}"
    using assms by (auto simp: check_expected_eq)
  then show ?thesis
    by (simp add: sw_process_pending_signals_def DebugBreak_def log_event_def)
qed

theorem drain_unexpected_witness:
  "2 \<in> pending_signals (sample_state {2, 3} (Handler 7)) \<and>
   2 \<notin> set (exp_signals sample_cfg) \<and>
   sw_process_pending_signals sample_cfg (sample_env\<lparr>break_continues := False\<rparr>)
       (sample_state {2, 3} (Handler 7)) =
     Stops Breakpoint
       ((sample_state {2, 3} (Handler 7))\<lparr>errno := Some ENOTSUP, trace := [DebugBreakCall]\<rparr>)"
proof -
  have a: "2 \<in> pending_signals (sample_state {2, 3} (Handler 7))"
    by (simp add: sample_state_def)
  have b: "2 \<notin> set (exp_signals sample_cfg)"
    by (simp add: sample_cfg_def exp_signals_def)
  show ?thesis
    using a b drain_unexpected [OF a b, of "sample_env\<lparr>break_continues := False\<rparr>"]
    by (simp add: sample_state_def)
qed

lemma sw_raise_trace:
  "\<exists>new. trace (final_state (sw_raise cfg env k s)) = trace s @ new \<and>
     DebugBreakCall \<notin> set new"
  by (auto simp: sw_raise_def log_event_def sw_cleanup_child_zombies_def
           split: option.splits sighandler.splits)

lemma sw_raise_Stops_reason:
  assumes "0 \<le> k \<and> k < W32_SIGMAX cfg" and "k \<noteq> W32_SIGSEGV cfg"
    and "sw_raise cfg env k s = Stops r s'"
  shows "r = ExitedThread"
  using assms
  by (auto simp: sw_raise_def handler_at_def split: if_splits sighandler.splits)

lemma dispatch_in_order_trace:
  "\<exists>new. trace (final_state (dispatch_in_order cfg env ks s)) = trace s @ new \<and>
     DebugBreakCall \<notin> set new"
proof (induction ks arbitrary: s)
  case Nil
  then show ?case by simp
next
  case (Cons k ks)
  obtain n1 where n1: "trace (final_state (sw_raise cfg env k s)) = trace s @ n1"
    "DebugBreakCall \<notin> set n1"
    using sw_raise_trace by blast
  show ?case
  proof (cases "sw_raise cfg env k s")
    case (Returns rc s1)
    obtain n2 where n2: "trace (final_state (dispatch_in_order cfg env ks s1)) = trace s1 @ n2"
      "DebugBreakCall \<notin> set n2"
      using Cons.IH by blast
    have "trace (final_state (dispatch_in_order cfg env (k # ks) s)) = trace s @ (n1 @ n2)"
      using Returns n1 n2 by simp
    moreover have "DebugBreakCall \<notin> set (n1 @ n2)"
      using n1 n2 by simp
    ultimately show ?thesis by blast
  next
    case (Stops r s1)
    then show ?thesis using n1 by auto
  qed
qed

lemma dispatch_in_order_Stops_reason:
  assumes "\<forall>k\<in>set ks. 0 \<le> k \<and> k < W32_SIGMAX cfg \<and> k \<noteq> W32_SIGSEGV cfg"
    and "dispatch_in_order cfg env ks s = Stops r s'"
  shows "r = ExitedThread"
  using assms
proof (induction ks arbitrary: s)
  case Nil
  then show ?case by simp
next
  case (Cons k ks)
  show ?case
  proof (cases "sw_raise cfg env k s")
    case (Returns rc s1)
    then show ?thesis using Cons by simp
  next
    case (Stops r1 s1)
    then have "r1 = ExitedThread"
      using Cons.prems(1) sw_raise_Stops_reason [of k cfg env s r1 s1] by simp
    then show ?thesis using Stops Cons.prems(2) by simp
  qed
qed

text \<open>
  C10: when the validation of lines 169-171 succeeds, the loop of lines 182-194, run
  over the whole of \<open>exp[]\<close>, leaves the working snapshot \<open>pending_tmp\<close> empty (the only
  other way out of the loop is the \<open>ExitThread(1)\<close> of a default action), and the drain
  never calls \<open>DebugBreak()\<close>: the branch of lines 198-199 is not taken.
\<close>

theorem drain_snapshot_emptied:
  assumes "wf_cfg cfg" and "check_expected cfg (pending_signals s) = {}"
  shows "(case process_loop cfg env (exp_signals cfg) (pending_signals s) False
                 (s\<lparr>pending_signals := {}\<rparr>) of
            Returns (pending_tmp, sig_int) s' \<Rightarrow> pending_tmp = {}
          | Stops r s' \<Rightarrow> r = ExitedThread) \<and>
         (\<exists>new. trace (final_state (sw_process_pending_signals cfg env s)) = trace s @ new \<and>
            DebugBreakCall \<notin> set new)"
proof -
  let ?s0 = "s\<lparr>pending_signals := {}\<rparr>"
  let ?ks = "dispatched_kinds cfg s (pending_signals s)"
  have sub: "pending_signals s \<subseteq> set (exp_signals cfg)"
    using assms(2) by (auto simp: check_expected_eq)
  then have emp: "pending_signals s - set (exp_signals cfg) = {}"
    by auto
  have ks: "\<forall>k\<in>set ?ks. 0 \<le> k \<and> k < W32_SIGMAX cfg \<and> k \<noteq> W32_SIGSEGV cfg"
    using wf_cfg_exp [OF assms(1)] by (auto simp: dispatched_kinds_def)
  have loop: "process_loop cfg env (exp_signals cfg) (pending_signals s) False ?s0 =
      bind_outcome (dispatch_in_order cfg env ?ks ?s0)
        (\<lambda>u s'. Returns ({}, list_ex (\<lambda>k. k \<noteq> W32_SIGALRM cfg) ?ks) s')"
    by (simp add: process_loop_dispatch [OF wf_cfg_exp(1,2) [OF assms(1)]] emp
          dispatched_kinds_def)
  have first: "(case process_loop cfg env (exp_signals cfg) (pending_signals s) False ?s0 of
            Returns (pending_tmp, sig_int) s' \<Rightarrow> pending_tmp = {}
          | Stops r s' \<Rightarrow> r = ExitedThread)"
    unfolding loop
    using dispatch_in_order_Stops_reason [OF ks]
    by (cases "dispatch_in_order cfg env ?ks ?s0") auto
  obtain new where new: "trace (final_state (dispatch_in_order cfg env ?ks ?s0)) =
      trace ?s0 @ new" "DebugBreakCall \<notin> set new"
    using dispatch_in_order_trace by blast
  have "trace (final_state (sw_process_pending_signals cfg env s)) = trace s @ new"
    unfolding drain_as_dispatch [OF assms(1) sub]
    using new(1)
    by (cases "dispatch_in_order cfg env ?ks ?s0") (auto simp: drain_result_def)
  then show ?thesis
    using first new(2) by blast
qed

theorem drain_snapshot_emptied_witness:
  "wf_cfg sample_cfg \<and>
   check_expected sample_cfg (pending_signals (sample_state {3, 4} (Handler 7))) = {} \<and>
   (case process_loop sample_cfg sample_env (exp_signals sample_cfg)
           (pending_signals (sample_state {3, 4} (Handler 7))) False
           ((sample_state {3, 4} (Handler 7))\<lparr>pending_signals := {}\<rparr>) of
      Returns (pending_tmp, sig_int) s' \<Rightarrow> pending_tmp = {}
    | Stops r s' \<Rightarrow> r = ExitedThread) \<and>
   (\<exists>new. trace (final_state (sw_process_pending_signals sample_cfg sample_env
                                 (sample_state {3, 4} (Handler 7)))) =
            trace (sample_state {3, 4} (Handler 7)) @ new \<and>
          DebugBreakCall \<notin> set new)"
proof -
  have c: "check_expected sample_cfg (pending_signals (sample_state {3, 4} (Handler 7))) = {}"
    by (simp add: check_expected_def exp_signals_def sample_cfg_def sample_state_def
          sigdelset_def)
  show ?thesis
    using wf_sample_cfg c drain_snapshot_emptied [OF wf_sample_cfg c, of sample_env]
    by blast
qed

subsection \<open>Registration and dispatch\<close>

lemma sw_signal_above_max:
  assumes "W32_SIGMAX cfg \<le> signum"
  shows "sw_signal cfg signum handler s = Returns W32_SIG_ERR (s\<lparr>errno := Some EINVAL\<rparr>)"
  using assms by (simp add: sw_signal_def)

lemma sw_raise_above_max:
  assumes "W32_SIGMAX cfg \<le> sig" and "sig \<noteq> W32_SIGSEGV cfg"
  shows "sw_raise cfg env sig s = Returns (- 1) (s\<lparr>errno := Some EINVAL\<rparr>)"
  using assms by (simp add: sw_raise_def)

text \<open>
  C4: a negative signal number passes the only range test of \<open>sw_signal\<close> and of
  \<open>sw_raise\<close>, \<open>signum >= W32_SIGMAX\<close>; neither function fails with \<open>EINVAL\<close>, both
  index \<open>sig_handlers\<close> below its first element. (Numbers at or above \<open>W32_SIGMAX\<close> are
  rejected as the claim says: \<open>sw_signal_above_max\<close>, \<open>sw_raise_above_max\<close>.)
\<close>

theorem negative_signal_not_rejected:
  assumes "wf_cfg cfg" and "signum < 0"
  shows "sw_signal cfg signum handler s = Stops OutOfBoundsAccess s \<and>
         sw_raise cfg env signum s = Stops OutOfBoundsAccess s"
proof -
  have "0 \<le> W32_SIGSEGV cfg" and "0 < W32_SIGMAX cfg"
    using assms(1) by (auto simp: wf_cfg_def)
  then show ?thesis
    using assms(2) by (simp add: sw_signal_def sw_raise_def handler_at_def)
qed

theorem negative_signal_not_rejected_witness:
  "wf_cfg sample_cfg \<and> (- 1 :: int) < 0 \<and>
   sw_signal sample_cfg (- 1) W32_SIG_IGN (sample_state {} W32_SIG_DFL) =
     Stops OutOfBoundsAccess (sample_state {} W32_SIG_DFL) \<and>
   sw_raise sample_cfg sample_env (- 1) (sample_state {} W32_SIG_DFL) =
     Stops OutOfBoundsAccess (sample_state {} W32_SIG_DFL)"
  using wf_sample_cfg
    negative_signal_not_rejected [OF wf_sample_cfg, of "- 1" W32_SIG_IGN
      "sample_state {} W32_SIG_DFL" sample_env]
  by simp

text \<open>
  C8, as stated, fails for the fault kind: \<open>W32_SIGSEGV\<close> is a number of the domain, its
  entry in the table can be set to Ignore, and \<open>sw_raise\<close> still hands it to the native
  \<open>raise(SIGSEGV)\<close> without reading the table (lines 129-130).
\<close>

theorem raise_ignored_fault_counterexample:
  "0 \<le> W32_SIGSEGV sample_cfg \<and> W32_SIGSEGV sample_cfg < W32_SIGMAX sample_cfg \<and>
   sig_handlers (sample_state {} W32_SIG_IGN) (W32_SIGSEGV sample_cfg) = W32_SIG_IGN \<and>
   sw_raise sample_cfg sample_env (W32_SIGSEGV sample_cfg) (sample_state {} W32_SIG_IGN) =
     Stops NativeFault ((sample_state {} W32_SIG_IGN)\<lparr>trace := [NativeRaiseSIGSEGV]\<rparr>)"
  by (simp add: sw_raise_def sample_cfg_def sample_env_def sample_state_def log_event_def)

text \<open>
  C8, amended: for every signal number of the domain other than the fault kind whose
  disposition is Ignore, \<open>sw_raise\<close> is a pure no-op: it returns \<open>0\<close>, calls nothing
  (the trace is unchanged) and leaves the whole state as it was.
\<close>

theorem raise_ignored_is_noop:
  assumes "0 \<le> sig" and "sig < W32_SIGMAX cfg" and "sig \<noteq> W32_SIGSEGV cfg"
    and "sig_handlers s sig = W32_SIG_IGN"
  shows "sw_raise cfg env sig s = Returns 0 s"
  using assms by (simp add: sw_raise_def handler_at_def)

theorem raise_ignored_is_noop_witness:
  "(0::int) \<le> 8 \<and> 8 < W32_SIGMAX sample_cfg \<and> 8 \<noteq> W32_SIGSEGV sample_cfg \<and>
   sig_handlers (sample_state {} W32_SIG_IGN) 8 = W32_SIG_IGN \<and>
   sw_raise sample_cfg sample_env 8 (sample_state {} W32_SIG_IGN) =
     Returns 0 (sample_state {} W32_SIG_IGN)"
proof -
  have a: "(0::int) \<le> 8" and b: "8 < W32_SIGMAX sample_cfg"
    and c: "8 \<noteq> W32_SIGSEGV sample_cfg"
    and d: "sig_handlers (sample_state {} W32_SIG_IGN) 8 = W32_SIG_IGN"
    by (simp_all add: sample_cfg_def sample_state_def)
  show ?thesis
    using a b c d raise_ignored_is_noop [OF a b c d, of sample_env] by simp
qed

subsection \<open>The unified wait\<close>

lemma run_apc_fields:
  "trace (run_apc cfg s a) = trace s"
  "sig_handlers (run_apc cfg s a) = sig_handlers s"
  "children (run_apc cfg s a) = children s"
  "errno (run_apc cfg s a) = errno s"
  by (cases a; simp)+

lemma run_apc_pending:
  "pending_signals s \<subseteq> pending_signals (run_apc cfg s a)"
  "pending_signals s \<subseteq> set (exp_signals cfg) \<Longrightarrow>
     pending_signals (run_apc cfg s a) \<subseteq> set (exp_signals cfg)"
  by (cases a; auto simp: sigaddset_def exp_signals_def)+

lemma foldl_run_apc_fields:
  "trace (foldl (run_apc cfg) s as) = trace s"
  "sig_handlers (foldl (run_apc cfg) s as) = sig_handlers s"
  "children (foldl (run_apc cfg) s as) = children s"
  "errno (foldl (run_apc cfg) s as) = errno s"
  by (induction as arbitrary: s; simp add: run_apc_fields)+

lemma foldl_run_apc_pending:
  "pending_signals s \<subseteq> pending_signals (foldl (run_apc cfg) s as)"
  "pending_signals s \<subseteq> set (exp_signals cfg) \<Longrightarrow>
     pending_signals (foldl (run_apc cfg) s as) \<subseteq> set (exp_signals cfg)"
proof (induction as arbitrary: s)
  case Nil
  { case 1 show ?case by simp }
  { case 2 then show ?case by simp }
next
  case (Cons a as)
  { case 1
    show ?case using Cons.IH(1) [of "run_apc cfg s a"] run_apc_pending(1) [of s cfg a]
      by auto }
  { case 2
    then show ?case using Cons.IH(2) [of "run_apc cfg s a"] run_apc_pending(2) [of s cfg a]
      by auto }
qed

lemma alertable_wait_fields:
  "trace (alertable_wait cfg w call s) = trace s @ [call]"
  "sig_handlers (alertable_wait cfg w call s) = sig_handlers s"
  "children (alertable_wait cfg w call s) = children s"
  "errno (alertable_wait cfg w call s) = errno s"
  by (simp_all add: alertable_wait_def foldl_run_apc_fields log_event_def)

lemma alertable_wait_pending:
  "pending_signals s \<subseteq> pending_signals (alertable_wait cfg w call s)"
  "pending_signals s \<subseteq> set (exp_signals cfg) \<Longrightarrow>
     pending_signals (alertable_wait cfg w call s) \<subseteq> set (exp_signals cfg)"
  using foldl_run_apc_pending [of "log_event call s" cfg "apcs w"]
  by (simp_all add: alertable_wait_def log_event_def)

lemma wait_child_branch:
  assumes "\<not> MAXIMUM_WAIT_OBJECTS <
             num_events + (num_children (children s) - num_zombies (children s))"
    and "num_events + (num_children (children s) - num_zombies (children s)) \<noteq> 0"
    and "ret w \<le> num_events + (num_children (children s) - num_zombies (children s)) - 1"
    and "ret w < num_children (children s)"
  shows "wait_for_any_event cfg env w num_events ms s =
           sw_process_pending_signals cfg env
             (sw_child_to_zombie env (ret w)
                ((alertable_wait cfg w
                    (WaitForMultipleObjectsEx
                       (num_events + (num_children (children s) - num_zombies (children s)))
                       ms) s)
                 \<lparr>pending_signals :=
                    sigaddset
                      (pending_signals
                         (alertable_wait cfg w
                            (WaitForMultipleObjectsEx
                               (num_events +
                                (num_children (children s) - num_zombies (children s)))
                               ms) s))
                      (W32_SIGCHLD cfg)\<rparr>))"
proof -
  have nz: "num_children (children s) \<noteq> 0"
    using assms(4) by auto
  show ?thesis
    using assms nz
    by (simp add: wait_for_any_event_def wait_multiple_def Let_def WAIT_OBJECT_0_def
          alertable_wait_fields sw_child_to_zombie_def log_event_def sigaddset_def)
qed

lemma sint_nonneg_uint:
  fixes x :: "'a::len word"
  assumes "0 \<le> sint x"
  shows "sint x = uint x"
proof -
  have nb: "\<not> bit x (LENGTH('a) - Suc 0)"
    using assms by (simp add: bit_last_iff)
  show ?thesis
    by (rule bit_eqI) (auto simp: bit_sint_iff bit_uint_iff nb dest: bit_imp_le_length)
qed

lemma uint_pred:
  fixes n :: "'a::len word"
  assumes "n \<noteq> 0"
  shows "uint (n - 1) = uint n - 1"
  using assms uint_minus_simple_alt word_le_sub1 by force

lemma drain_default_child:
  assumes "wf_cfg cfg" and "pending_signals s \<subseteq> set (exp_signals cfg)"
    and "W32_SIGCHLD cfg \<in> pending_signals s"
    and "sig_handlers s (W32_SIGCHLD cfg) = W32_SIG_DFL"
  shows "\<exists>rest. trace (final_state (sw_process_pending_signals cfg env s)) =
           trace s @ CleanupChildZombies # rest"
proof -
  let ?s0 = "s\<lparr>pending_signals := {}\<rparr>"
  obtain ks where ks: "dispatched_kinds cfg s (pending_signals s) = W32_SIGCHLD cfg # ks"
    using assms(3,4) by (simp add: dispatched_kinds_def exp_signals_def)
  have chld: "0 \<le> W32_SIGCHLD cfg \<and> W32_SIGCHLD cfg < W32_SIGMAX cfg"
    "W32_SIGCHLD cfg \<noteq> W32_SIGSEGV cfg"
    using assms(1) by (auto simp: wf_cfg_def exp_signals_def)
  have r: "sw_raise cfg env (W32_SIGCHLD cfg) ?s0 = Returns 0 (sw_cleanup_child_zombies env ?s0)"
    using chld assms(4) by (simp add: sw_raise_def handler_at_def)
  obtain new where new:
    "trace (final_state (dispatch_in_order cfg env ks (sw_cleanup_child_zombies env ?s0))) =
       trace (sw_cleanup_child_zombies env ?s0) @ new"
    using dispatch_in_order_trace by blast
  have "trace (final_state (sw_process_pending_signals cfg env s)) =
          trace s @ CleanupChildZombies # new"
    unfolding drain_as_dispatch [OF assms(1,2)] ks
    using r new
    by (cases "dispatch_in_order cfg env ks (sw_cleanup_child_zombies env ?s0)")
       (auto simp: drain_result_def sw_cleanup_child_zombies_def log_event_def)
  then show ?thesis by blast
qed

text \<open>
  C1: take a state whose pending set holds expected kinds only and whose child table has
  no more zombies than children, a call whose combined count fits the capacity, and a
  wait that ends with the handle of a live child signaled (\<open>ret\<close> is below the live
  count). Then the call marks child-exit pending and calls \<open>sw_child_to_zombie\<close> for
  that index before anything else, and it runs the drain on the state so reached; when
  the disposition of child-exit is the default, \<open>sw_cleanup_child_zombies\<close> is the next
  call made, inside that drain.
\<close>

theorem child_exit_wake:
  assumes "wf_cfg cfg"
    and "pending_signals s \<subseteq> set (exp_signals cfg)"
    and "num_zombies (children s) \<le> num_children (children s)"
    and "0 \<le> sint num_events"
    and "sint num_events + uint (num_children (children s) - num_zombies (children s))
           \<le> uint MAXIMUM_WAIT_OBJECTS"
    and "ret w < num_children (children s) - num_zombies (children s)"
  shows "let n = num_events + (num_children (children s) - num_zombies (children s));
             s1 = alertable_wait cfg w (WaitForMultipleObjectsEx n ms) s;
             s2 = sw_child_to_zombie env (ret w)
                    (s1\<lparr>pending_signals := sigaddset (pending_signals s1) (W32_SIGCHLD cfg)\<rparr>)
         in wait_for_any_event cfg env w num_events ms s =
              sw_process_pending_signals cfg env s2 \<and>
            W32_SIGCHLD cfg \<in> pending_signals s2 \<and>
            trace s2 = trace s @ [WaitForMultipleObjectsEx n ms, ChildToZombie (ret w)] \<and>
            (sig_handlers s (W32_SIGCHLD cfg) = W32_SIG_DFL \<longrightarrow>
               (\<exists>rest. trace (final_state (wait_for_any_event cfg env w num_events ms s)) =
                  trace s @ [WaitForMultipleObjectsEx n ms, ChildToZombie (ret w),
                             CleanupChildZombies] @ rest))"
proof -
  define live where "live = num_children (children s) - num_zombies (children s)"
  define n where "n = num_events + live"
  define s1 where "s1 = alertable_wait cfg w (WaitForMultipleObjectsEx n ms) s"
  define s2 where "s2 = sw_child_to_zombie env (ret w)
     (s1\<lparr>pending_signals := sigaddset (pending_signals s1) (W32_SIGCHLD cfg)\<rparr>)"
  have ev: "sint num_events = uint num_events"
    using assms(4) by (rule sint_nonneg_uint)
  have sum: "uint num_events + uint live \<le> 64"
    using assms(5) by (simp add: ev live_def MAXIMUM_WAIT_OBJECTS_def)
  then have un: "uint n = uint num_events + uint live"
    unfolding n_def by (simp add: uint_word_ariths)
  have cap: "\<not> MAXIMUM_WAIT_OBJECTS < n"
    using sum un by (simp add: word_less_def MAXIMUM_WAIT_OBJECTS_def)
  have rl: "uint (ret w) < uint live"
    using assms(6) by (simp add: word_less_def live_def)
  have "0 \<le> uint (ret w)" and "0 \<le> uint num_events"
    by simp_all
  then have "uint n \<noteq> 0"
    using rl un by linarith
  then have n0: "n \<noteq> 0"
    by auto
  have "uint (n - 1) = uint n - 1"
    using n0 by (rule uint_pred)
  then have "uint (ret w) \<le> uint (n - 1)"
    using rl un \<open>0 \<le> uint num_events\<close> by linarith
  then have idx: "ret w \<le> n - 1"
    by (simp add: word_le_def)
  have "live \<le> num_children (children s)"
    unfolding live_def using assms(3) by (rule word_sub_le)
  then have rc: "ret w < num_children (children s)"
    using assms(6) unfolding live_def by simp
  have call: "wait_for_any_event cfg env w num_events ms s =
      sw_process_pending_signals cfg env s2"
    using wait_child_branch [of num_events s w cfg env ms] cap n0 idx rc
    unfolding n_def live_def s2_def s1_def by simp
  have p2: "pending_signals s2 = insert (W32_SIGCHLD cfg) (pending_signals s1)"
    and h2: "sig_handlers s2 = sig_handlers s"
    and t2: "trace s2 = trace s @ [WaitForMultipleObjectsEx n ms, ChildToZombie (ret w)]"
    by (simp_all add: s2_def s1_def sw_child_to_zombie_def log_event_def sigaddset_def
          alertable_wait_fields)
  have sub: "pending_signals s2 \<subseteq> set (exp_signals cfg)"
    using alertable_wait_pending(2) [OF assms(2), of w "WaitForMultipleObjectsEx n ms"]
    by (simp add: p2 s1_def exp_signals_def)
  have reap: "\<exists>rest. trace (final_state (wait_for_any_event cfg env w num_events ms s)) =
      trace s @ [WaitForMultipleObjectsEx n ms, ChildToZombie (ret w), CleanupChildZombies]
        @ rest"
    if "sig_handlers s (W32_SIGCHLD cfg) = W32_SIG_DFL"
    using drain_default_child [OF assms(1) sub, of env] that
    by (simp add: call p2 h2 t2)
  show ?thesis
    using call p2 t2 reap
    unfolding Let_def n_def [symmetric] live_def [symmetric] s1_def [symmetric]
      s2_def [symmetric]
    by simp
qed

theorem child_exit_wake_witness:
  "wf_cfg sample_cfg \<and>
   pending_signals ((sample_state {} W32_SIG_DFL)
      \<lparr>children := \<lparr>num_children = 2, num_zombies = 0\<rparr>\<rparr>) \<subseteq> set (exp_signals sample_cfg) \<and>
   (0 :: DWORD) \<le> 2 \<and> 0 \<le> sint (1 :: DWORD) \<and>
   sint (1 :: DWORD) + uint (2 - 0 :: DWORD) \<le> uint MAXIMUM_WAIT_OBJECTS \<and>
   ret \<lparr>apcs = [], ret = 1\<rparr> < (2 - 0 :: DWORD) \<and>
   (\<exists>rest. trace (final_state (wait_for_any_event sample_cfg sample_env \<lparr>apcs = [], ret = 1\<rparr>
        1 1000
        ((sample_state {} W32_SIG_DFL)\<lparr>children := \<lparr>num_children = 2, num_zombies = 0\<rparr>\<rparr>))) =
      [WaitForMultipleObjectsEx 3 1000, ChildToZombie 1, CleanupChildZombies] @ rest)"
proof -
  let ?s = "(sample_state {} W32_SIG_DFL)\<lparr>children := \<lparr>num_children = 2, num_zombies = 0\<rparr>\<rparr>"
  let ?w = "\<lparr>apcs = [], ret = 1 :: DWORD\<rparr>"
  have a: "pending_signals ?s \<subseteq> set (exp_signals sample_cfg)"
    by (simp add: sample_state_def)
  have b: "num_zombies (children ?s) \<le> num_children (children ?s)"
    by simp
  have c: "0 \<le> sint (1 :: DWORD)"
    by simp
  have d: "sint (1 :: DWORD) + uint (num_children (children ?s) - num_zombies (children ?s))
             \<le> uint MAXIMUM_WAIT_OBJECTS"
    by (simp add: MAXIMUM_WAIT_OBJECTS_def)
  have e: "ret ?w < num_children (children ?s) - num_zombies (children ?s)"
    by simp
  have f: "sig_handlers ?s (W32_SIGCHLD sample_cfg) = W32_SIG_DFL"
    by (simp add: sample_state_def)
  have "\<exists>rest. trace (final_state (wait_for_any_event sample_cfg sample_env ?w 1 1000 ?s)) =
      trace ?s @
      [WaitForMultipleObjectsEx
         (1 + (num_children (children ?s) - num_zombies (children ?s))) 1000,
       ChildToZombie (ret ?w), CleanupChildZombies] @ rest"
    using child_exit_wake [OF wf_sample_cfg a b c d e, where env = sample_env and ms = 1000] f
    unfolding Let_def by blast
  then have g: "\<exists>rest. trace (final_state (wait_for_any_event sample_cfg sample_env ?w 1 1000 ?s)) =
      [WaitForMultipleObjectsEx 3 1000, ChildToZombie 1, CleanupChildZombies] @ rest"
    by (simp add: sample_state_def)
  show ?thesis
    using wf_sample_cfg a g by (simp add: MAXIMUM_WAIT_OBJECTS_def)
qed

text \<open>
  C9: a wake by the handle at index \<open>ret\<close> of the combined set is taken for a child exit
  whenever \<open>ret\<close> is below \<open>num_children\<close>, whether or not it is below the live count
  \<open>num_children - num_zombies\<close>: child-exit is marked pending and
  \<open>sw_child_to_zombie\<close> is called for \<open>ret\<close>. With one zombie among two children and
  one handle of the caller, the caller's handle at index 1 is treated so.
\<close>

theorem zombie_index_wake:
  assumes "\<not> MAXIMUM_WAIT_OBJECTS <
             num_events + (num_children (children s) - num_zombies (children s))"
    and "num_events + (num_children (children s) - num_zombies (children s)) \<noteq> 0"
    and "ret w \<le> num_events + (num_children (children s) - num_zombies (children s)) - 1"
    and "ret w < num_children (children s)"
  shows "let n = num_events + (num_children (children s) - num_zombies (children s));
             s1 = alertable_wait cfg w (WaitForMultipleObjectsEx n ms) s;
             s2 = sw_child_to_zombie env (ret w)
                    (s1\<lparr>pending_signals := sigaddset (pending_signals s1) (W32_SIGCHLD cfg)\<rparr>)
         in wait_for_any_event cfg env w num_events ms s =
              sw_process_pending_signals cfg env s2 \<and>
            W32_SIGCHLD cfg \<in> pending_signals s2 \<and>
            trace s2 = trace s @ [WaitForMultipleObjectsEx n ms, ChildToZombie (ret w)]"
  using wait_child_branch [OF assms, where cfg = cfg and env = env and ms = ms]
  by (simp add: Let_def sw_child_to_zombie_def log_event_def sigaddset_def
        alertable_wait_fields)

theorem zombie_index_wake_witness:
  "\<not> MAXIMUM_WAIT_OBJECTS < (1 + (2 - 1) :: DWORD) \<and> (1 + (2 - 1) :: DWORD) \<noteq> 0 \<and>
   ret \<lparr>apcs = [], ret = 1\<rparr> \<le> (1 + (2 - 1) - 1 :: DWORD) \<and>
   ret \<lparr>apcs = [], ret = 1\<rparr> < (2 :: DWORD) \<and>
   (2 - 1 :: DWORD) \<le> ret \<lparr>apcs = [], ret = 1\<rparr> \<and>
   wait_for_any_event sample_cfg sample_env \<lparr>apcs = [], ret = 1\<rparr> 1 1000
     ((sample_state {} (Handler 7))\<lparr>children := \<lparr>num_children = 2, num_zombies = 1\<rparr>\<rparr>) =
   sw_process_pending_signals sample_cfg sample_env
     \<lparr> pending_signals = {W32_SIGCHLD sample_cfg}, sig_handlers = (\<lambda>k. Handler 7),
       children = \<lparr>num_children = 2, num_zombies = 2\<rparr>, errno = None,
       trace = [WaitForMultipleObjectsEx 2 1000, ChildToZombie 1] \<rparr>"
proof -
  let ?s = "(sample_state {} (Handler 7))\<lparr>children := \<lparr>num_children = 2, num_zombies = 1\<rparr>\<rparr>"
  let ?w = "\<lparr>apcs = [], ret = 1 :: DWORD\<rparr>"
  have a: "\<not> MAXIMUM_WAIT_OBJECTS <
             1 + (num_children (children ?s) - num_zombies (children ?s))"
    by (simp add: MAXIMUM_WAIT_OBJECTS_def)
  have b: "1 + (num_children (children ?s) - num_zombies (children ?s)) \<noteq> 0"
    by simp
  have c: "ret ?w \<le> 1 + (num_children (children ?s) - num_zombies (children ?s)) - 1"
    by simp
  have d: "ret ?w < num_children (children ?s)"
    by simp
  show ?thesis
    using a b c d zombie_index_wake [OF a b c d, where cfg = sample_cfg and env = sample_env and ms = 1000]
    by (simp add: Let_def sample_state_def alertable_wait_def log_event_def
          sw_child_to_zombie_def sigaddset_def sample_env_def)
qed

text \<open>
  C6: when the wait ends by its timeout (\<open>WAIT_TIMEOUT\<close> from the wait on a non-empty
  combined set, \<open>0\<close> from the sleep on an empty one), the call returns \<open>0\<close> at once: the
  only call made is the wait itself, and the pending set, the dispositions, the child
  table and \<open>errno\<close> are as the wait left them; the drain has not run, whatever is
  pending. So it is for no handles, no children, timeout \<open>0\<close> and nothing pending.
\<close>

theorem wait_timeout_skips_drain:
  assumes "\<not> MAXIMUM_WAIT_OBJECTS <
             num_events + (num_children (children s) - num_zombies (children s))"
    and "(num_events + (num_children (children s) - num_zombies (children s)) \<noteq> 0 \<and>
          ret w = WAIT_TIMEOUT) \<or>
         (num_events + (num_children (children s) - num_zombies (children s)) = 0 \<and>
          ret w = 0)"
  shows "let n = num_events + (num_children (children s) - num_zombies (children s));
             call = (if n \<noteq> 0 then WaitForMultipleObjectsEx n ms else SleepEx ms);
             r = wait_for_any_event cfg env w num_events ms s
         in r = Returns 0 (alertable_wait cfg w call s) \<and>
            trace (final_state r) = trace s @ [call] \<and>
            pending_signals s \<subseteq> pending_signals (final_state r) \<and>
            sig_handlers (final_state r) = sig_handlers s \<and>
            children (final_state r) = children s \<and>
            errno (final_state r) = errno s"
proof -
  define n where "n = num_events + (num_children (children s) - num_zombies (children s))"
  define call where "call = (if n \<noteq> 0 then WaitForMultipleObjectsEx n ms else SleepEx ms)"
  have r: "wait_for_any_event cfg env w num_events ms s =
      Returns 0 (alertable_wait cfg w call s)"
  proof (cases "n = 0")
    case True
    then have "ret w = 0"
      using assms(2) by (simp add: n_def)
    then show ?thesis
      using True assms(1)
      by (simp add: wait_for_any_event_def wait_sleep_def Let_def n_def [symmetric] call_def
            WAIT_IO_COMPLETION_def)
  next
    case False
    then have t: "ret w = WAIT_TIMEOUT"
      using assms(2) by (simp add: n_def)
    have "uint n \<le> 64"
      using assms(1) by (simp add: n_def word_less_def MAXIMUM_WAIT_OBJECTS_def)
    then have "uint (n - 1) < 258"
      using uint_pred [OF False] by simp
    then have "\<not> WAIT_TIMEOUT \<le> WAIT_OBJECT_0 + n - 1"
      by (simp add: word_le_def WAIT_TIMEOUT_def WAIT_OBJECT_0_def)
    then show ?thesis
      using False assms(1) t
      by (simp add: wait_for_any_event_def wait_multiple_def Let_def n_def [symmetric]
            call_def WAIT_IO_COMPLETION_def WAIT_TIMEOUT_def)
  qed
  show ?thesis
    unfolding Let_def n_def [symmetric] call_def [symmetric] r
    using alertable_wait_pending(1) [of s cfg w call]
    by (simp add: alertable_wait_fields)
qed

theorem wait_timeout_skips_drain_witness:
  "\<not> MAXIMUM_WAIT_OBJECTS < (0 + (0 - 0) :: DWORD) \<and> (0 + (0 - 0) :: DWORD) = 0 \<and>
   ret \<lparr>apcs = [], ret = 0\<rparr> = (0 :: DWORD) \<and>
   wait_for_any_event sample_cfg sample_env \<lparr>apcs = [], ret = 0\<rparr> 0 0
       (sample_state {} W32_SIG_DFL) =
     Returns 0 ((sample_state {} W32_SIG_DFL)\<lparr>trace := [SleepEx 0]\<rparr>)"
proof -
  let ?s = "sample_state {} W32_SIG_DFL"
  let ?w = "\<lparr>apcs = [], ret = 0 :: DWORD\<rparr>"
  have c: "children ?s = \<lparr>num_children = 0, num_zombies = 0\<rparr>"
    by (simp add: sample_state_def)
  have a: "\<not> MAXIMUM_WAIT_OBJECTS <
             0 + (num_children (children ?s) - num_zombies (children ?s))"
    by (simp add: c)
  have b: "(0 + (num_children (children ?s) - num_zombies (children ?s)) \<noteq> 0 \<and>
          ret ?w = WAIT_TIMEOUT) \<or>
         (0 + (num_children (children ?s) - num_zombies (children ?s)) = 0 \<and>
          ret ?w = 0)"
    by (simp add: c)
  show ?thesis
    using wait_timeout_skips_drain [OF a b, where cfg = sample_cfg and env = sample_env and ms = 0]
    by (simp add: Let_def c alertable_wait_def log_event_def sample_state_def)
qed

text \<open>
  C7: when the number of handles of the caller (a non-negative \<open>int\<close>) plus the number of
  live children exceeds \<open>MAXIMUM_WAIT_OBJECTS\<close>, the sum being a \<open>DWORD\<close> value, the call
  returns \<open>-1\<close> with \<open>errno = ENOTSUP\<close>; it makes no call (neither wait nor sleep) and
  leaves the pending set, the child table and the dispositions as they were.
\<close>

theorem wait_capacity_exceeded:
  assumes "0 \<le> sint num_events"
    and "uint MAXIMUM_WAIT_OBJECTS <
           sint num_events + uint (num_children (children s) - num_zombies (children s))"
    and "sint num_events + uint (num_children (children s) - num_zombies (children s))
           < 2 ^ 32"
  shows "wait_for_any_event cfg env w num_events ms s =
           Returns (- 1) (s\<lparr>errno := Some ENOTSUP\<rparr>)"
proof -
  define live where "live = num_children (children s) - num_zombies (children s)"
  have ev: "sint num_events = uint num_events"
    using assms(1) by (rule sint_nonneg_uint)
  have "uint num_events + uint live < 2 ^ 32"
    using assms(3) by (simp add: ev live_def)
  then have "uint (num_events + live) = uint num_events + uint live"
    using uint_add_lem [of num_events live] by simp
  then have "MAXIMUM_WAIT_OBJECTS < num_events + live"
    using assms(2) by (simp add: word_less_def ev live_def)
  then show ?thesis
    by (simp add: wait_for_any_event_def Let_def live_def)
qed

theorem wait_capacity_exceeded_witness:
  "0 \<le> sint (64 :: DWORD) \<and>
   uint MAXIMUM_WAIT_OBJECTS < sint (64 :: DWORD) + uint (1 - 0 :: DWORD) \<and>
   sint (64 :: DWORD) + uint (1 - 0 :: DWORD) < 2 ^ 32 \<and>
   wait_for_any_event sample_cfg sample_env \<lparr>apcs = [sigint_APCProc], ret = 0\<rparr> 64 1000
       ((sample_state {4} W32_SIG_DFL)\<lparr>children := \<lparr>num_children = 1, num_zombies = 0\<rparr>\<rparr>) =
     Returns (- 1)
       ((sample_state {4} W32_SIG_DFL)
          \<lparr>children := \<lparr>num_children = 1, num_zombies = 0\<rparr>, errno := Some ENOTSUP\<rparr>)"
proof -
  let ?s = "(sample_state {4} W32_SIG_DFL)\<lparr>children := \<lparr>num_children = 1, num_zombies = 0\<rparr>\<rparr>"
  have a: "0 \<le> sint (64 :: DWORD)"
    by simp
  have b: "uint MAXIMUM_WAIT_OBJECTS <
      sint (64 :: DWORD) + uint (num_children (children ?s) - num_zombies (children ?s))"
    by (simp add: MAXIMUM_WAIT_OBJECTS_def)
  have c: "sint (64 :: DWORD) + uint (num_children (children ?s) - num_zombies (children ?s))
      < 2 ^ 32"
    by simp
  show ?thesis
    using wait_capacity_exceeded [OF a b c, where cfg = sample_cfg and env = sample_env
        and w = "\<lparr>apcs = [sigint_APCProc], ret = 0\<rparr>" and ms = 1000]
    by (simp add: MAXIMUM_WAIT_OBJECTS_def)
qed

end
